theory Spec2Isabelle
  imports Main "HOL-Library.Word" "HOL-Library.AList" "HOL-Library.List_Lexorder"
begin

unbundle bit_operations_syntax

section \<open>The atomic transaction repository of plugin/evm/atomic\_tx\_repository.go\<close>

text \<open>
  The repository keeps two indexes of accepted atomic transactions over one
  versioned database: transaction id to height and transaction, and height to
  the transactions accepted there. A third, reserved key records how far the
  indexing has come. This theory embeds the file's functions and proves the
  properties its specification states about them.
\<close>

subsection \<open>Bytes and the constants of the file\<close>

type_synonym byte = "8 word"
type_synonym bytes = "byte list"

text \<open>\<^verbatim>\<open>wrappers.LongLen\<close>, \<^verbatim>\<open>wrappers.IntLen\<close> and \<^verbatim>\<open>common.HashLength\<close>:
  the byte widths of a uint64, of a uint32 and of a hash.\<close>

definition LongLen :: nat where
  "LongLen = 8"

definition IntLen :: nat where
  "IntLen = 4"

definition HashLength :: nat where
  "HashLength = 32"

text \<open>\<^verbatim>\<open>commitSizeCap = 10 * units.MiB\<close>, with \<^verbatim>\<open>units.MiB\<close> = 1024 * 1024.\<close>

definition commitSizeCap :: nat where
  "commitSizeCap = 10 * (1024 * 1024)"

text \<open>\<^verbatim>\<open>maxIndexedHeightKey = []byte("maxIndexedAtomicTxHeight")\<close>.\<close>

definition maxIndexedHeightKey :: bytes where
  "maxIndexedHeightKey = map (\<lambda>c. of_nat (of_char c)) ''maxIndexedAtomicTxHeight''"

subsection \<open>encoding/binary: big-endian integers\<close>

text \<open>The Go standard library's \<^verbatim>\<open>binary.BigEndian.PutUint64(b, v)\<close> on a fresh
  8-byte slice:
  \<^verbatim>\<open>b[0] = byte(v >> 56); ...; b[7] = byte(v)\<close>.\<close>

definition PutUint64 :: "64 word \<Rightarrow> bytes" where
  "PutUint64 v =
     [ucast (drop_bit 56 v), ucast (drop_bit 48 v), ucast (drop_bit 40 v), ucast (drop_bit 32 v),
      ucast (drop_bit 24 v), ucast (drop_bit 16 v), ucast (drop_bit 8 v), ucast v]"

text \<open>\<^verbatim>\<open>binary.BigEndian.Uint64(b)\<close>:
  \<^verbatim>\<open>uint64(b[7]) | uint64(b[6])<<8 | ... | uint64(b[0])<<56\<close>. Go panics on a
  slice shorter than 8; every caller below checks the length first.\<close>

definition Uint64 :: "bytes \<Rightarrow> 64 word" where
  "Uint64 b =
     ucast (b ! 7) OR push_bit 8 (ucast (b ! 6)) OR push_bit 16 (ucast (b ! 5)) OR
     push_bit 24 (ucast (b ! 4)) OR push_bit 32 (ucast (b ! 3)) OR push_bit 40 (ucast (b ! 2)) OR
     push_bit 48 (ucast (b ! 1)) OR push_bit 56 (ucast (b ! 0))"

definition PutUint32 :: "32 word \<Rightarrow> bytes" where
  "PutUint32 v = [ucast (drop_bit 24 v), ucast (drop_bit 16 v), ucast (drop_bit 8 v), ucast v]"

definition Uint32 :: "bytes \<Rightarrow> 32 word" where
  "Uint32 b =
     ucast (b ! 3) OR push_bit 8 (ucast (b ! 2)) OR push_bit 16 (ucast (b ! 1)) OR
     push_bit 24 (ucast (b ! 0))"

subsection \<open>wrappers.Packer\<close>

text \<open>
  Modelled from the spec: \<^verbatim>\<open>wrappers.Packer\<close> is a type of the avalanchego library
  and is not under src/. The specification fixes the layout it produces for a
  by-ID value, \<^verbatim>\<open>height:uint64-big-endian || length-prefixed-bytes(tx)\<close>, with a
  4-byte big-endian length (\<^verbatim>\<open>wrappers.IntLen\<close>). The operations below follow that
  layout and the packer's error discipline: an operation that does not fit sets
  the error flag, and an errored packer returns zero values and does nothing.
  The packers of this file are built from a byte slice only, so their size limit
  is zero and a write never grows the slice.
\<close>

record Packer =
  Bytes :: bytes
  Offset :: nat
  Errored :: bool

definition newPacker :: "bytes \<Rightarrow> Packer" where
  "newPacker b = \<lparr>Bytes = b, Offset = 0, Errored = False\<rparr>"

text \<open>\<^verbatim>\<open>checkSpace(n)\<close>: fewer than \<open>n\<close> bytes left to read is an error.\<close>

definition checkSpace :: "Packer \<Rightarrow> nat \<Rightarrow> Packer" where
  "checkSpace p n =
     (if int (length (Bytes p)) - int (Offset p) < int n then p\<lparr>Errored := True\<rparr> else p)"

text \<open>\<^verbatim>\<open>expand(n)\<close>: a write of \<open>n\<close> bytes that needs more than the slice holds is
  an error (the size limit is zero).\<close>

definition expand :: "Packer \<Rightarrow> nat \<Rightarrow> Packer" where
  "expand p n = (if n + Offset p \<le> length (Bytes p) then p else p\<lparr>Errored := True\<rparr>)"

text \<open>\<^verbatim>\<open>copy(p.Bytes[p.Offset:], b)\<close> for a \<open>b\<close> that fits.\<close>

definition copyAt :: "bytes \<Rightarrow> nat \<Rightarrow> bytes \<Rightarrow> bytes" where
  "copyAt dst off b = take off dst @ b @ drop (off + length b) dst"

definition PackFixedBytes :: "Packer \<Rightarrow> bytes \<Rightarrow> Packer" where
  "PackFixedBytes p b =
     (let p1 = expand p (length b) in
      if Errored p1 then p1
      else p1\<lparr>Bytes := copyAt (Bytes p1) (Offset p1) b, Offset := Offset p1 + length b\<rparr>)"

definition PackInt :: "Packer \<Rightarrow> 32 word \<Rightarrow> Packer" where
  "PackInt p v =
     (let p1 = expand p IntLen in
      if Errored p1 then p1
      else p1\<lparr>Bytes := copyAt (Bytes p1) (Offset p1) (PutUint32 v), Offset := Offset p1 + IntLen\<rparr>)"

text \<open>\<^verbatim>\<open>PackBytes(b)\<close>: \<^verbatim>\<open>PackInt(uint32(len(b)))\<close>, then the bytes. The conversion
  to uint32 keeps the low 32 bits of the length.\<close>

definition PackBytes :: "Packer \<Rightarrow> bytes \<Rightarrow> Packer" where
  "PackBytes p b = PackFixedBytes (PackInt p (of_nat (length b))) b"

definition UnpackLong :: "Packer \<Rightarrow> 64 word \<times> Packer" where
  "UnpackLong p =
     (let p1 = checkSpace p LongLen in
      if Errored p1 then (0, p1)
      else (Uint64 (drop (Offset p1) (Bytes p1)), p1\<lparr>Offset := Offset p1 + LongLen\<rparr>))"

definition UnpackInt :: "Packer \<Rightarrow> 32 word \<times> Packer" where
  "UnpackInt p =
     (let p1 = checkSpace p IntLen in
      if Errored p1 then (0, p1)
      else (Uint32 (drop (Offset p1) (Bytes p1)), p1\<lparr>Offset := Offset p1 + IntLen\<rparr>))"

text \<open>\<^verbatim>\<open>UnpackFixedBytes(size)\<close>: the next \<open>size\<close> bytes, or nil (the empty
  list) once the packer has errored.\<close>

definition UnpackFixedBytes :: "Packer \<Rightarrow> nat \<Rightarrow> bytes \<times> Packer" where
  "UnpackFixedBytes p n =
     (let p1 = checkSpace p n in
      if Errored p1 then ([], p1)
      else (take n (drop (Offset p1) (Bytes p1)), p1\<lparr>Offset := Offset p1 + n\<rparr>))"

definition UnpackBytes :: "Packer \<Rightarrow> bytes \<times> Packer" where
  "UnpackBytes p = (case UnpackInt p of (n, p1) \<Rightarrow> UnpackFixedBytes p1 (unat n))"

subsection \<open>Errors\<close>

text \<open>
  The errors the file returns. \<open>ErrNotFound\<close> is \<^verbatim>\<open>database.ErrNotFound\<close>;
  \<open>StoreError\<close> is any other error of the database and \<open>CodecError\<close> any error of
  the codec, each with the code the collaborator gave; the next two are the
  \<^verbatim>\<open>fmt.Errorf\<close> values of \<^verbatim>\<open>initialize\<close> and \<^verbatim>\<open>GetByTxID\<close>; \<open>IteratorErrored\<close> wraps
  the iterator's error as \<^verbatim>\<open>%w\<close> does; \<open>SliceOutOfRange\<close> is the Go runtime panic
  of a slice expression beyond the slice.
\<close>

datatype error =
    ErrNotFound
  | StoreError nat
  | CodecError nat
  | InvalidMaxIndexedHeight bytes
  | EntryTooShort nat
  | IteratorErrored error
  | SliceOutOfRange

subsection \<open>The versioned database\<close>

text \<open>
  Modelled from the spec: the versioned database, its prefixed views and their
  iterators are types of the avalanchego library and are not under src/.
  Section 4.1 of the specification gives their contract: two disjoint key
  spaces carved out of one transactional store, and a marker key outside both;
  a write is visible to later reads on the same handle but not durable until a
  commit, which flushes every pending write together; an iterator runs in key
  order from a given key, inclusive, and surfaces a terminal error if the
  store reports one.

  \<^verbatim>\<open>prefixdb.New(prefix, db)\<close> gives a view of \<open>db\<close> whose keys carry the prefix,
  so the repository's three handles address three disjoint key spaces of one
  store: the database itself (which holds \<^verbatim>\<open>maxIndexedHeightKey\<close>), the
  \<^verbatim>\<open>atomicTxDB\<close> view and the \<^verbatim>\<open>atomicHeightTxDB\<close> view.
\<close>

datatype keyspace = RootDB | AcceptedAtomicTxDB | AcceptedAtomicTxByHeightDB

datatype op = OpGet keyspace bytes | OpPut keyspace bytes | OpCommit

text \<open>
  The versioned database: \<open>mem\<close> holds the writes since the last commit, \<open>base\<close>
  the committed contents; a read looks in \<open>mem\<close> first. The remaining fields are
  the failures the environment will report: \<open>fault\<close> gives the error code, if
  any, of each read, write and commit; an iterator stops after \<open>iterStop\<close>
  entries when that is set, and \<open>iterErr n\<close> is the error its \<^verbatim>\<open>Error()\<close> reports
  after the \<open>n\<close>-th call of \<^verbatim>\<open>Next()\<close>.
\<close>

record versiondb =
  mem :: "((keyspace \<times> bytes) \<times> bytes) list"
  base :: "((keyspace \<times> bytes) \<times> bytes) list"
  fault :: "op \<Rightarrow> nat option"
  iterStop :: "nat option"
  iterErr :: "nat \<Rightarrow> nat option"

definition lookup :: "versiondb \<Rightarrow> keyspace \<Rightarrow> bytes \<Rightarrow> bytes option" where
  "lookup s sp k =
     (case map_of (mem s) (sp, k) of Some v \<Rightarrow> Some v | None \<Rightarrow> map_of (base s) (sp, k))"

definition Get :: "versiondb \<Rightarrow> keyspace \<Rightarrow> bytes \<Rightarrow> error + bytes" where
  "Get s sp k =
     (case fault s (OpGet sp k) of
        Some n \<Rightarrow> Inl (StoreError n)
      | None \<Rightarrow> (case lookup s sp k of None \<Rightarrow> Inl ErrNotFound | Some v \<Rightarrow> Inr v))"

definition Put :: "versiondb \<Rightarrow> keyspace \<Rightarrow> bytes \<Rightarrow> bytes \<Rightarrow> versiondb \<times> error option" where
  "Put s sp k v =
     (case fault s (OpPut sp k) of
        Some n \<Rightarrow> (s, Some (StoreError n))
      | None \<Rightarrow> (s\<lparr>mem := AList.update (sp, k) v (mem s)\<rparr>, None))"

definition Commit :: "versiondb \<Rightarrow> versiondb \<times> error option" where
  "Commit s =
     (case fault s OpCommit of
        Some n \<Rightarrow> (s, Some (StoreError n))
      | None \<Rightarrow> (s\<lparr>mem := [], base := AList.merge (base s) (mem s)\<rparr>, None))"

text \<open>
  An iterator, as the loop of \<^verbatim>\<open>initialize\<close> observes it: the entries \<^verbatim>\<open>Next()\<close>
  moves to, each with the value \<^verbatim>\<open>Error()\<close> has there, and the value \<^verbatim>\<open>Error()\<close>
  has once \<^verbatim>\<open>Next()\<close> has returned false.
\<close>

type_synonym iterStep = "bytes \<times> bytes \<times> error option"

record Iterator =
  steps :: "iterStep list"
  finalError :: "error option"

text \<open>\<^verbatim>\<open>NewIteratorWithStart(start)\<close> on a view: the entries of the view with
  key at or after \<open>start\<close>, in key order, as the database stood at the call.\<close>

definition entriesFrom :: "versiondb \<Rightarrow> keyspace \<Rightarrow> bytes \<Rightarrow> (bytes \<times> bytes) list" where
  "entriesFrom s sp start =
     sort_key fst
       (map (\<lambda>((sp', k), v). (k, v))
         (filter (\<lambda>((sp', k), v). sp' = sp \<and> start \<le> k)
           (AList.clearjunk (AList.merge (base s) (mem s)))))"

definition NewIteratorWithStart :: "versiondb \<Rightarrow> keyspace \<Rightarrow> bytes \<Rightarrow> Iterator" where
  "NewIteratorWithStart s sp start =
     (let es = entriesFrom s sp start;
          es' = (case iterStop s of None \<Rightarrow> es | Some n \<Rightarrow> take n es)
      in \<lparr>steps = map (\<lambda>(i, (k, v)). (k, v, map_option StoreError (iterErr s (Suc i))))
                    (enumerate 0 es'),
          finalError = map_option StoreError (iterErr s (Suc (length es')))\<rparr>)"

text \<open>A database with nothing stored and no failure to report.\<close>

definition emptyDB :: versiondb where
  "emptyDB = \<lparr>mem = [], base = [], fault = (\<lambda>_. None), iterStop = None, iterErr = (\<lambda>_. None)\<rparr>"

subsection \<open>The codec and the transactions\<close>

text \<open>
  The transaction type, the codec and the two decoding helpers
  \<^verbatim>\<open>ExtractAtomicTx\<close> and \<^verbatim>\<open>ExtractAtomicTxsBatch\<close> are not in the file; they are
  parameters here. \<open>marshalTx\<close> is \<^verbatim>\<open>codec.Marshal(codecVersion, tx)\<close>, \<open>marshalTxs\<close>
  the same call on a list, \<open>txID\<close> is \<^verbatim>\<open>tx.ID()\<close> as the byte slice \<^verbatim>\<open>txID[:]\<close>.
  A failing call gives an error code.
\<close>

record 'tx codec =
  marshalTx :: "'tx \<Rightarrow> nat + bytes"
  marshalTxs :: "'tx list \<Rightarrow> nat + bytes"
  extractAtomicTx :: "bytes \<Rightarrow> nat + 'tx"
  extractAtomicTxsBatch :: "bytes \<Rightarrow> nat + 'tx list"
  txID :: "'tx \<Rightarrow> bytes"

text \<open>A small codec to run the model on: a transaction is one byte, its
  encoding is that byte, a list is encoded as its bytes, and the identifier
  repeats the byte to the width of a hash.\<close>

definition byteCodec :: "byte codec" where
  "byteCodec =
     \<lparr>marshalTx = (\<lambda>t. Inr [t]),
      marshalTxs = (\<lambda>ts. Inr ts),
      extractAtomicTx = (\<lambda>b. case b of [t] \<Rightarrow> Inr t | _ \<Rightarrow> Inl 1),
      extractAtomicTxsBatch = (\<lambda>b. Inr b),
      txID = (\<lambda>t. replicate 32 t)\<rparr>"

subsection \<open>Reading\<close>

text \<open>\<^verbatim>\<open>GetByTxID\<close>: the entry under the id, its height and its transaction.\<close>

definition GetByTxID :: "'tx codec \<Rightarrow> versiondb \<Rightarrow> bytes \<Rightarrow> error + ('tx \<times> 64 word)" where
  "GetByTxID c s txid =
     (case Get s AcceptedAtomicTxDB txid of
        Inl err \<Rightarrow> Inl err
      | Inr indexedTxBytes \<Rightarrow>
          if length indexedTxBytes < LongLen then Inl (EntryTooShort (length indexedTxBytes))
          else
            (case UnpackLong (newPacker indexedTxBytes) of (height, packer1) \<Rightarrow>
              (case UnpackBytes packer1 of (txBytes, packer2) \<Rightarrow>
                (case extractAtomicTx c txBytes of
                   Inl n \<Rightarrow> Inl (CodecError n)
                 | Inr tx \<Rightarrow> Inr (tx, height)))))"

definition getByHeightBytes :: "'tx codec \<Rightarrow> versiondb \<Rightarrow> bytes \<Rightarrow> error + 'tx list" where
  "getByHeightBytes c s heightBytes =
     (case Get s AcceptedAtomicTxByHeightDB heightBytes of
        Inl err \<Rightarrow> Inl err
      | Inr txsBytes \<Rightarrow>
          (case extractAtomicTxsBatch c txsBytes of
             Inl n \<Rightarrow> Inl (CodecError n)
           | Inr txs \<Rightarrow> Inr txs))"

definition GetByHeight :: "'tx codec \<Rightarrow> versiondb \<Rightarrow> 64 word \<Rightarrow> error + 'tx list" where
  "GetByHeight c s height = getByHeightBytes c s (PutUint64 height)"

subsection \<open>Writing\<close>

text \<open>The value \<^verbatim>\<open>indexTxByID\<close> stores: a packer over a slice of
  \<^verbatim>\<open>LongLen + IntLen + len(txBytes)\<close> bytes, filled with the height bytes and
  the length-prefixed transaction bytes.\<close>

definition heightTxPacker :: "bytes \<Rightarrow> bytes \<Rightarrow> Packer" where
  "heightTxPacker heightBytes txBytes =
     PackBytes
       (PackFixedBytes (newPacker (replicate (LongLen + IntLen + length txBytes) 0)) heightBytes)
       txBytes"

definition indexTxByID :: "'tx codec \<Rightarrow> versiondb \<Rightarrow> bytes \<Rightarrow> 'tx \<Rightarrow> versiondb \<times> error option" where
  "indexTxByID c s heightBytes tx =
     (case marshalTx c tx of
        Inl n \<Rightarrow> (s, Some (CodecError n))
      | Inr txBytes \<Rightarrow>
          Put s AcceptedAtomicTxDB (txID c tx) (Bytes (heightTxPacker heightBytes txBytes)))"

definition indexTxsAtHeight :: "'tx codec \<Rightarrow> versiondb \<Rightarrow> bytes \<Rightarrow> 'tx list \<Rightarrow> versiondb \<times> error option" where
  "indexTxsAtHeight c s heightBytes txs =
     (case marshalTxs c txs of
        Inl n \<Rightarrow> (s, Some (CodecError n))
      | Inr txsBytes \<Rightarrow> Put s AcceptedAtomicTxByHeightDB heightBytes txsBytes)"

text \<open>The loop of \<^verbatim>\<open>Write\<close> over the transactions: the first error ends it.\<close>

fun indexTxsByID :: "'tx codec \<Rightarrow> versiondb \<Rightarrow> bytes \<Rightarrow> 'tx list \<Rightarrow> versiondb \<times> error option" where
  "indexTxsByID c s heightBytes [] = (s, None)"
| "indexTxsByID c s heightBytes (tx # txs) =
     (case indexTxByID c s heightBytes tx of
        (s1, Some err) \<Rightarrow> (s1, Some err)
      | (s1, None) \<Rightarrow> indexTxsByID c s1 heightBytes txs)"

definition Write :: "'tx codec \<Rightarrow> versiondb \<Rightarrow> 64 word \<Rightarrow> 'tx list \<Rightarrow> versiondb \<times> error option" where
  "Write c s height txs =
     (let heightBytes = PutUint64 height in
      case indexTxsByID c s heightBytes txs of
        (s1, Some err) \<Rightarrow> (s1, Some err)
      | (s1, None) \<Rightarrow>
          (case indexTxsAtHeight c s1 heightBytes txs of
             (s2, Some err) \<Rightarrow> (s2, Some err)
           | (s2, None) \<Rightarrow> Put s2 RootDB maxIndexedHeightKey heightBytes))"

text \<open>\<^verbatim>\<open>addTxToHeightIndex\<close>: the transactions already at the height, then the
  new one. The loop over the existing transactions compares identifiers and
  its body is empty (the \<^verbatim>\<open>return nil\<close> is commented out), so it changes nothing
  and the append that follows always runs. A height with no entry yet gives
  the nil list.\<close>

definition addTxToHeightIndex :: "'tx codec \<Rightarrow> versiondb \<Rightarrow> bytes \<Rightarrow> 'tx \<Rightarrow> versiondb \<times> error option" where
  "addTxToHeightIndex c s heightBytes tx =
     (case getByHeightBytes c s heightBytes of
        Inl err \<Rightarrow>
          if err \<noteq> ErrNotFound then (s, Some err)
          else indexTxsAtHeight c s heightBytes ([] @ [tx])
      | Inr txs \<Rightarrow> indexTxsAtHeight c s heightBytes (txs @ [tx]))"

subsection \<open>The migration of \<^verbatim>\<open>initialize\<close>\<close>

text \<open>The variables of \<^verbatim>\<open>initialize\<close> that its loop updates. The byte count is a
  Go \<^verbatim>\<open>int\<close>; it is reset whenever it passes \<open>commitSizeCap\<close> and grows by the
  length of one stored value at a time, so it stays far below the range of a
  64-bit integer and is a natural number here.\<close>

record locals =
  lastTxID :: bytes
  pendingBytesApproximation :: nat
  indexedTxs :: nat

text \<open>
  One pass of the loop body, at an entry \<^verbatim>\<open>Next()\<close> has moved to. The two slice
  expressions \<^verbatim>\<open>iterValue[:LongLen]\<close> and \<^verbatim>\<open>iterValue[LongLen+IntLen:]\<close> panic on
  a value shorter than 12 bytes. Logging is left out.
\<close>

definition initializeStep ::
  "'tx codec \<Rightarrow> versiondb \<times> locals \<Rightarrow> iterStep \<Rightarrow> (versiondb \<times> locals) \<times> error option" where
  "initializeStep c sl st =
     (case sl of (s, l) \<Rightarrow>
      (case st of (iterKey, iterValue, iterError) \<Rightarrow>
      (case iterError of
         Some err \<Rightarrow> ((s, l), Some (IteratorErrored err))
       | None \<Rightarrow>
           if length iterValue < LongLen + IntLen then ((s, l), Some SliceOutOfRange)
           else
             (let heightBytes = take LongLen iterValue;
                  txBytes = drop (LongLen + IntLen) iterValue
              in case extractAtomicTx c txBytes of
                   Inl n \<Rightarrow> ((s, l), Some (CodecError n))
                 | Inr tx \<Rightarrow>
                     (case addTxToHeightIndex c s heightBytes tx of
                        (s1, Some err) \<Rightarrow> ((s1, l), Some err)
                      | (s1, None) \<Rightarrow>
                          (let l1 = l\<lparr>lastTxID := txID c tx,
                                       pendingBytesApproximation :=
                                         pendingBytesApproximation l + length txBytes\<rparr>
                           in if commitSizeCap < pendingBytesApproximation l1 then
                                (case Put s1 RootDB maxIndexedHeightKey (lastTxID l1) of
                                   (s2, Some err) \<Rightarrow> ((s2, l1), Some err)
                                 | (s2, None) \<Rightarrow>
                                     (case Commit s2 of
                                        (s3, Some err) \<Rightarrow> ((s3, l1), Some err)
                                      | (s3, None) \<Rightarrow>
                                          ((s3, l1\<lparr>pendingBytesApproximation := 0,
                                                    indexedTxs := Suc (indexedTxs l1)\<rparr>), None)))
                              else ((s1, l1\<lparr>indexedTxs := Suc (indexedTxs l1)\<rparr>), None)))))))"

text \<open>\<^verbatim>\<open>for iter.Next() { ... }\<close>: the body at each entry in turn; the loop ends
  when the entries do, or at the first error of the body.\<close>

fun initializeLoop ::
  "'tx codec \<Rightarrow> versiondb \<times> locals \<Rightarrow> iterStep list \<Rightarrow> (versiondb \<times> locals) \<times> error option" where
  "initializeLoop c sl [] = (sl, None)"
| "initializeLoop c sl (st # rest) =
     (case initializeStep c sl st of
        (sl1, Some err) \<Rightarrow> (sl1, Some err)
      | (sl1, None) \<Rightarrow> initializeLoop c sl1 rest)"

text \<open>\<^verbatim>\<open>initialize\<close> from the creation of the iterator on: the loop, then the
  write of \<open>lastAcceptedHeight\<close> under \<^verbatim>\<open>maxIndexedHeightKey\<close> and the commit.
  Nothing reads \<^verbatim>\<open>iter.Error()\<close> after the loop.\<close>

definition initializeFrom ::
  "'tx codec \<Rightarrow> versiondb \<Rightarrow> bytes \<Rightarrow> 64 word \<Rightarrow> versiondb \<times> error option" where
  "initializeFrom c s startTxID lastAcceptedHeight =
     (let iter = NewIteratorWithStart s AcceptedAtomicTxDB startTxID in
      case initializeLoop c
             (s, \<lparr>lastTxID = startTxID, pendingBytesApproximation = 0, indexedTxs = 0\<rparr>)
             (steps iter) of
        ((s1, l), Some err) \<Rightarrow> (s1, Some err)
      | ((s1, l), None) \<Rightarrow>
          (case Put s1 RootDB maxIndexedHeightKey (PutUint64 lastAcceptedHeight) of
             (s2, Some err) \<Rightarrow> (s2, Some err)
           | (s2, None) \<Rightarrow> Commit s2))"

text \<open>\<^verbatim>\<open>initialize\<close>: the switch on the stored marker, in the order of the source.\<close>

definition initialize :: "'tx codec \<Rightarrow> versiondb \<Rightarrow> 64 word \<Rightarrow> versiondb \<times> error option" where
  "initialize c s lastAcceptedHeight =
     (case Get s RootDB maxIndexedHeightKey of
        Inl err \<Rightarrow>
          if err \<noteq> ErrNotFound then (s, Some err)
          else initializeFrom c s [] lastAcceptedHeight
      | Inr indexHeightBytes \<Rightarrow>
          if length indexHeightBytes = LongLen then (s, None)
          else if length indexHeightBytes = HashLength then
            initializeFrom c s indexHeightBytes lastAcceptedHeight
          else (s, Some (InvalidMaxIndexedHeight indexHeightBytes)))"

text \<open>\<^verbatim>\<open>NewAtomicTxRepository\<close> builds the repository over the database and
  returns it with the result of \<^verbatim>\<open>initialize\<close>.\<close>

definition NewAtomicTxRepository ::
  "'tx codec \<Rightarrow> versiondb \<Rightarrow> 64 word \<Rightarrow> versiondb \<times> error option" where
  "NewAtomicTxRepository c db lastAcceptedHeight = initialize c db lastAcceptedHeight"

subsection \<open>The specification's layout of a by-ID value\<close>

text \<open>
  The length-prefixed payload as the specification words it, to compare with
  what the packer of \<^verbatim>\<open>GetByTxID\<close> reads: a 4-byte big-endian length and then
  that many bytes. Bytes too few for the length, or for the prefix itself,
  hold no payload.
\<close>

definition lengthPrefixed :: "bytes \<Rightarrow> bytes" where
  "lengthPrefixed r =
     (if length r < 4 then []
      else if length r - 4 < unat (Uint32 r) then []
      else take (unat (Uint32 r)) (drop 4 r))"


subsection \<open>Databases to run the model on\<close>

text \<open>A database whose marker holds a height: the indexing is complete.\<close>

definition doneDB :: versiondb where
  "doneDB = emptyDB\<lparr>base := [((RootDB, maxIndexedHeightKey), PutUint64 7)]\<rparr>"

text \<open>A database whose marker holds three bytes.\<close>

definition corruptDB :: versiondb where
  "corruptDB = emptyDB\<lparr>base := [((RootDB, maxIndexedHeightKey), [1, 2, 3])]\<rparr>"

text \<open>A database whose by-ID space holds a value of three bytes.\<close>

definition shortEntryDB :: versiondb where
  "shortEntryDB = emptyDB\<lparr>base := [((AcceptedAtomicTxDB, replicate 32 5), [0, 0, 7])]\<rparr>"

text \<open>A database from before the height index: two transactions by id, the
  first accepted at height 1 and the second at height 2, and no marker.\<close>

definition legacyDB :: versiondb where
  "legacyDB = emptyDB\<lparr>base :=
     [((AcceptedAtomicTxDB, replicate 32 0xA), [0, 0, 0, 0, 0, 0, 0, 1, 0, 0, 0, 1, 0xA]),
      ((AcceptedAtomicTxDB, replicate 32 0xB), [0, 0, 0, 0, 0, 0, 0, 2, 0, 0, 0, 1, 0xB])]\<rparr>"

text \<open>The same database when the store fails during the scan: the iterator
  moves to the first entry, then \<^verbatim>\<open>Next()\<close> returns false and \<^verbatim>\<open>Error()\<close> reports
  the store's error.\<close>

definition brokenScanDB :: versiondb where
  "brokenScanDB = legacyDB\<lparr>iterStop := Some 1, iterErr := (\<lambda>n. if n = 2 then Some 5 else None)\<rparr>"

text \<open>A database whose by-height space already holds transaction \<open>0xA\<close> at
  height 1.\<close>

definition indexedDB :: versiondb where
  "indexedDB = emptyDB\<lparr>base := [((AcceptedAtomicTxByHeightDB, PutUint64 1), [0xA])]\<rparr>"

text \<open>A database as a checkpoint of the migration leaves it: transaction \<open>0xA\<close>
  is stored by id and indexed at height 1, and the marker holds its
  identifier.\<close>

definition resumedDB :: versiondb where
  "resumedDB = emptyDB\<lparr>base :=
     [((AcceptedAtomicTxDB, replicate 32 0xA), [0, 0, 0, 0, 0, 0, 0, 1, 0, 0, 0, 1, 0xA]),
      ((AcceptedAtomicTxByHeightDB, [0, 0, 0, 0, 0, 0, 0, 1]), [0xA]),
      ((RootDB, maxIndexedHeightKey), replicate 32 0xA)]\<rparr>"

section \<open>Properties\<close>

subsection \<open>Big-endian integers, the packer and the database\<close>

lemma Uint64_PutUint64: "Uint64 (PutUint64 h) = h"
proof (rule bit_word_eqI)
  fix n :: nat
  assume n: "n < LENGTH(64)"
  have a: "\<And>k. k \<le> n \<Longrightarrow> k + (n - k) = n" by simp
  show "bit (Uint64 (PutUint64 h)) n = bit h n"
    using n unfolding Uint64_def PutUint64_def
    apply (simp add: bit_simps a less_diff_conv2 cong: conj_cong)
    apply (cases "bit h n")
     apply simp_all
    apply linarith
    done
qed

lemma Uint32_PutUint32: "Uint32 (PutUint32 h) = h"
proof (rule bit_word_eqI)
  fix n :: nat
  assume n: "n < LENGTH(32)"
  have a: "\<And>k. k \<le> n \<Longrightarrow> k + (n - k) = n" by simp
  show "bit (Uint32 (PutUint32 h)) n = bit h n"
    using n unfolding Uint32_def PutUint32_def
    apply (simp add: bit_simps a less_diff_conv2 cong: conj_cong)
    apply (cases "bit h n")
     apply simp_all
    apply linarith
    done
qed

lemma length_PutUint64: "length (PutUint64 h) = 8" by (simp add: PutUint64_def)
lemma length_PutUint32: "length (PutUint32 h) = 4" by (simp add: PutUint32_def)

lemma Uint64_append: "length a = 8 \<Longrightarrow> Uint64 (a @ r) = Uint64 a"
  by (simp add: Uint64_def nth_append)

lemma Uint32_append: "length a = 4 \<Longrightarrow> Uint32 (a @ r) = Uint32 a"
  by (simp add: Uint32_def nth_append)

lemma Uint64_take: "8 \<le> length v \<Longrightarrow> Uint64 (take 8 v) = Uint64 v"
  by (simp add: Uint64_def)

lemma heightTxPacker_Bytes:
  assumes "length hb = 8"
  shows "Bytes (heightTxPacker hb txBytes) = hb @ PutUint32 (of_nat (length txBytes)) @ txBytes"
  using assms
  by (simp add: heightTxPacker_def PackBytes_def PackFixedBytes_def PackInt_def expand_def
      newPacker_def copyAt_def LongLen_def IntLen_def Let_def length_PutUint32)

lemma UnpackLong_record:
  assumes "length hb = 8"
  shows "UnpackLong (newPacker (hb @ r)) = (Uint64 hb, \<lparr>Bytes = hb @ r, Offset = 8, Errored = False\<rparr>)"
  using assms
  by (simp add: UnpackLong_def checkSpace_def newPacker_def LongLen_def Let_def Uint64_append)

lemma UnpackBytes_record:
  assumes "length hb = 8" and "length b < 2 ^ 32"
  shows "fst (UnpackBytes \<lparr>Bytes = hb @ PutUint32 (of_nat (length b)) @ b, Offset = 8, Errored = False\<rparr>) = b"
proof -
  have u: "unat (of_nat (length b) :: 32 word) = length b"
    using assms(2) by (simp add: unat_of_nat)
  have u2: "uint (of_nat (length b) :: 32 word) = int (length b)"
    using u by (simp add: uint_nat)
  show ?thesis
    using assms(1)
    by (simp add: UnpackBytes_def UnpackInt_def UnpackFixedBytes_def checkSpace_def IntLen_def
        Let_def length_PutUint32 Uint32_append Uint32_PutUint32 u u2)
qed

lemma lookup_Put:
  "Put s sp k v = (s', None) \<Longrightarrow>
   lookup s' sp' k' = (if sp' = sp \<and> k' = k then Some v else lookup s sp' k')"
  by (auto simp: Put_def lookup_def update_conv' split: option.splits)

lemma Put_fields:
  "Put s sp k v = (s', e) \<Longrightarrow> fault s' = fault s \<and> base s' = base s \<and> iterStop s' = iterStop s \<and> iterErr s' = iterErr s"
  by (auto simp: Put_def split: option.splits)

lemma Put_Some: "Put s sp k v = (s', Some e) \<Longrightarrow> s' = s"
  by (auto simp: Put_def split: option.splits)

lemma Put_ok: "fault s (OpPut sp k) = None \<Longrightarrow> \<exists>s'. Put s sp k v = (s', None)"
  by (simp add: Put_def)

lemma lookup_Commit:
  "Commit s = (s', e) \<Longrightarrow> lookup s' sp k = lookup s sp k"
  by (auto simp: Commit_def lookup_def merge_conv' map_add_def split: option.splits)

lemma Commit_None:
  "Commit s = (s', None) \<Longrightarrow> mem s' = [] \<and> map_of (base s') (sp, k) = lookup s sp k"
  by (auto simp: Commit_def lookup_def merge_conv' map_add_def split: option.splits)

lemma Commit_fields:
  "Commit s = (s', e) \<Longrightarrow> fault s' = fault s \<and> iterStop s' = iterStop s \<and> iterErr s' = iterErr s"
  by (auto simp: Commit_def split: option.splits)

subsection \<open>The stored by-ID value and its two decoders\<close>

text \<open>
  C10. The value \<^verbatim>\<open>indexTxByID\<close> stores for a transaction is the 8 height bytes,
  the 4-byte big-endian length of the encoded transaction and the encoded
  transaction. On that value both readers hand the codec the same bytes, the
  ones it produced: \<^verbatim>\<open>GetByTxID\<close>, through its packer, returns what the codec
  decodes from them, with the height; a pass of the migration loop at an
  entry holding the value, through its slice \<^verbatim>\<open>iterValue[LongLen+IntLen:]\<close>,
  fails with the codec's error on them or goes on with the transaction decoded
  from them, at the height of the first 8 bytes and with their length added
  to the byte counter. The encoded transaction is shorter than \<open>2 ^ 32\<close> bytes,
  so that its length fits the 4-byte prefix, and the database answers the
  read.
\<close>

theorem stored_record_decoders_agree:
  assumes "indexTxByID c s (PutUint64 height) tx = (s', None)"
    and "marshalTx c tx = Inr txBytes"
    and "length txBytes < 2 ^ 32"
    and "fault s (OpGet AcceptedAtomicTxDB (txID c tx)) = None"
  shows "\<exists>v. lookup s' AcceptedAtomicTxDB (txID c tx) = Some v \<and>
           GetByTxID c s' (txID c tx) =
             (case extractAtomicTx c txBytes of
                Inl n \<Rightarrow> Inl (CodecError n)
              | Inr t \<Rightarrow> Inr (t, height)) \<and>
           (\<forall>s2 l k. initializeStep c (s2, l) (k, v, None) =
             (case extractAtomicTx c txBytes of
                Inl n \<Rightarrow> ((s2, l), Some (CodecError n))
              | Inr t \<Rightarrow>
                  (case addTxToHeightIndex c s2 (PutUint64 height) t of
                     (s3, Some err) \<Rightarrow> ((s3, l), Some err)
                   | (s3, None) \<Rightarrow>
                       (let l1 = l\<lparr>lastTxID := txID c t,
                                    pendingBytesApproximation :=
                                      pendingBytesApproximation l + length txBytes\<rparr>
                        in if commitSizeCap < pendingBytesApproximation l1 then
                             (case Put s3 RootDB maxIndexedHeightKey (lastTxID l1) of
                                (s4, Some err) \<Rightarrow> ((s4, l1), Some err)
                              | (s4, None) \<Rightarrow>
                                  (case Commit s4 of
                                     (s5, Some err) \<Rightarrow> ((s5, l1), Some err)
                                   | (s5, None) \<Rightarrow>
                                       ((s5, l1\<lparr>pendingBytesApproximation := 0,
                                                 indexedTxs := Suc (indexedTxs l1)\<rparr>), None)))
                           else ((s3, l1\<lparr>indexedTxs := Suc (indexedTxs l1)\<rparr>), None)))))"
proof -
  let ?hb = "PutUint64 height"
  let ?v = "?hb @ PutUint32 (of_nat (length txBytes)) @ txBytes"
  have put: "Put s AcceptedAtomicTxDB (txID c tx) ?v = (s', None)"
    using assms(1,2) by (simp add: indexTxByID_def heightTxPacker_Bytes length_PutUint64)
  have stored: "lookup s' AcceptedAtomicTxDB (txID c tx) = Some ?v"
    using lookup_Put [OF put] by simp
  have "fault s' = fault s"
    using Put_fields [OF put] by simp
  then have g: "Get s' AcceptedAtomicTxDB (txID c tx) = Inr ?v"
    using stored assms(4) by (simp add: Get_def)
  obtain p2 where u: "UnpackBytes \<lparr>Bytes = ?v, Offset = 8, Errored = False\<rparr> = (txBytes, p2)"
    using UnpackBytes_record [of ?hb txBytes] assms(3) by (metis length_PutUint64 prod.collapse)
  have byid: "GetByTxID c s' (txID c tx) =
                (case extractAtomicTx c txBytes of
                   Inl n \<Rightarrow> Inl (CodecError n)
                 | Inr t \<Rightarrow> Inr (t, height))"
    by (simp add: GetByTxID_def g LongLen_def length_PutUint64 length_PutUint32
        UnpackLong_record u Uint64_PutUint64)
  have len: "\<not> length ?v < LongLen + IntLen"
    and height_slice: "take LongLen ?v = ?hb"
    and tx_slice: "drop (LongLen + IntLen) ?v = txBytes"
    by (simp_all add: LongLen_def IntLen_def length_PutUint64 length_PutUint32)
  have step: "initializeStep c (s2, l) (k, ?v, None) =
             (case extractAtomicTx c txBytes of
                Inl n \<Rightarrow> ((s2, l), Some (CodecError n))
              | Inr t \<Rightarrow>
                  (case addTxToHeightIndex c s2 (PutUint64 height) t of
                     (s3, Some err) \<Rightarrow> ((s3, l), Some err)
                   | (s3, None) \<Rightarrow>
                       (let l1 = l\<lparr>lastTxID := txID c t,
                                    pendingBytesApproximation :=
                                      pendingBytesApproximation l + length txBytes\<rparr>
                        in if commitSizeCap < pendingBytesApproximation l1 then
                             (case Put s3 RootDB maxIndexedHeightKey (lastTxID l1) of
                                (s4, Some err) \<Rightarrow> ((s4, l1), Some err)
                              | (s4, None) \<Rightarrow>
                                  (case Commit s4 of
                                     (s5, Some err) \<Rightarrow> ((s5, l1), Some err)
                                   | (s5, None) \<Rightarrow>
                                       ((s5, l1\<lparr>pendingBytesApproximation := 0,
                                                 indexedTxs := Suc (indexedTxs l1)\<rparr>), None)))
                           else ((s3, l1\<lparr>indexedTxs := Suc (indexedTxs l1)\<rparr>), None))))" for s2 l k
    unfolding initializeStep_def prod.case option.case Let_def height_slice tx_slice
    using len by simp
  show ?thesis
    using stored byid step by blast
qed

theorem stored_record_decoders_agree_witness:
  "snd (indexTxByID byteCodec emptyDB (PutUint64 10) 0xA) = None \<and>
   marshalTx byteCodec 0xA = Inr [0xA] \<and>
   length [0xA :: byte] < 2 ^ 32 \<and>
   fault emptyDB (OpGet AcceptedAtomicTxDB (txID byteCodec 0xA)) = None \<and>
   lookup (fst (indexTxByID byteCodec emptyDB (PutUint64 10) 0xA)) AcceptedAtomicTxDB
     (txID byteCodec 0xA) = Some [0, 0, 0, 0, 0, 0, 0, 10, 0, 0, 0, 1, 0xA] \<and>
   GetByTxID byteCodec (fst (indexTxByID byteCodec emptyDB (PutUint64 10) 0xA))
     (txID byteCodec 0xA) = Inr (0xA, 10) \<and>
   initializeStep byteCodec
     (emptyDB, \<lparr>lastTxID = [], pendingBytesApproximation = 0, indexedTxs = 0\<rparr>)
     (txID byteCodec 0xA, [0, 0, 0, 0, 0, 0, 0, 10, 0, 0, 0, 1, 0xA], None) =
     ((emptyDB\<lparr>mem := [((AcceptedAtomicTxByHeightDB, [0, 0, 0, 0, 0, 0, 0, 10]), [0xA])]\<rparr>,
       \<lparr>lastTxID = replicate 32 0xA, pendingBytesApproximation = 1, indexedTxs = 1\<rparr>), None)"
proof -
  let ?s' = "fst (indexTxByID byteCodec emptyDB (PutUint64 10) 0xA)"
  let ?v = "[0, 0, 0, 0, 0, 0, 0, 10, 0, 0, 0, 1, 0xA] :: bytes"
  let ?l = "\<lparr>lastTxID = [], pendingBytesApproximation = 0, indexedTxs = 0\<rparr>"
  have m: "marshalTx byteCodec 0xA = Inr [0xA]"
    by (simp add: byteCodec_def)
  have okn: "snd (indexTxByID byteCodec emptyDB (PutUint64 10) 0xA) = None"
    by (simp add: indexTxByID_def byteCodec_def Put_def emptyDB_def)
  then have ok: "indexTxByID byteCodec emptyDB (PutUint64 10) 0xA = (?s', None)"
    by (metis prod.collapse)
  have n: "length [0xA :: byte] < 2 ^ 32" by simp
  have f: "fault emptyDB (OpGet AcceptedAtomicTxDB (txID byteCodec 0xA)) = None"
    by (simp add: emptyDB_def)
  have stored: "lookup ?s' AcceptedAtomicTxDB (txID byteCodec 0xA) = Some ?v"
    by (simp add: indexTxByID_def byteCodec_def Put_def emptyDB_def lookup_def
        heightTxPacker_Bytes length_PutUint64) (simp add: PutUint64_def PutUint32_def)
  have e: "extractAtomicTx byteCodec [0xA] = Inr 0xA"
    and i: "txID byteCodec 0xA = replicate 32 0xA"
    by (simp_all add: byteCodec_def)
  have h: "PutUint64 10 = [0, 0, 0, 0, 0, 0, 0, 10]"
    by (simp add: PutUint64_def)
  have a: "addTxToHeightIndex byteCodec emptyDB [0, 0, 0, 0, 0, 0, 0, 10] 0xA =
             (emptyDB\<lparr>mem := [((AcceptedAtomicTxByHeightDB, [0, 0, 0, 0, 0, 0, 0, 10]), [0xA])]\<rparr>,
              None)"
    by (simp add: addTxToHeightIndex_def getByHeightBytes_def Get_def lookup_def
        indexTxsAtHeight_def Put_def byteCodec_def emptyDB_def)
  from stored_record_decoders_agree [OF ok m n f] obtain v where
    v: "lookup ?s' AcceptedAtomicTxDB (txID byteCodec 0xA) = Some v" and
    byid: "GetByTxID byteCodec ?s' (txID byteCodec 0xA) = Inr (0xA, 10)" and
    step: "initializeStep byteCodec (emptyDB, ?l) (txID byteCodec 0xA, v, None) =
             ((emptyDB\<lparr>mem := [((AcceptedAtomicTxByHeightDB, [0, 0, 0, 0, 0, 0, 0, 10]), [0xA])]\<rparr>,
               \<lparr>lastTxID = replicate 32 0xA, pendingBytesApproximation = 1, indexedTxs = 1\<rparr>), None)"
    by (auto simp: e h a i commitSizeCap_def Let_def)
  from v stored have "v = ?v" by simp
  with byid step okn m n f stored show ?thesis
    by simp
qed

subsection \<open>The marker after \<^verbatim>\<open>Write\<close>\<close>

lemma indexTxsAtHeight_None:
  "indexTxsAtHeight c s hb txs = (s', None) \<Longrightarrow>
   \<exists>b. marshalTxs c txs = Inr b \<and> Put s AcceptedAtomicTxByHeightDB hb b = (s', None)"
  by (auto simp: indexTxsAtHeight_def split: sum.splits)

text \<open>
  C6. When \<^verbatim>\<open>Write(height, txs)\<close> returns no error, the value under
  \<^verbatim>\<open>maxIndexedHeightKey\<close> is the big-endian encoding of \<open>height\<close>: 8 bytes that
  decode to \<open>height\<close>.
\<close>

theorem Write_sets_marker:
  assumes "Write c s height txs = (s', None)"
  shows "lookup s' RootDB maxIndexedHeightKey = Some (PutUint64 height) \<and>
         length (PutUint64 height) = 8 \<and> Uint64 (PutUint64 height) = height"
proof -
  from assms obtain s2 where "Put s2 RootDB maxIndexedHeightKey (PutUint64 height) = (s', None)"
    by (auto simp: Write_def Let_def split: prod.splits option.splits)
  then have "lookup s' RootDB maxIndexedHeightKey = Some (PutUint64 height)"
    by (simp add: lookup_Put)
  then show ?thesis
    by (simp add: length_PutUint64 Uint64_PutUint64)
qed

theorem Write_sets_marker_witness:
  "snd (Write byteCodec emptyDB 10 [0xA, 0xB]) = None \<and>
   lookup (fst (Write byteCodec emptyDB 10 [0xA, 0xB])) RootDB maxIndexedHeightKey =
     Some [0, 0, 0, 0, 0, 0, 0, 10]"
proof -
  have ok: "snd (Write byteCodec emptyDB 10 [0xA, 0xB]) = None"
    by (simp add: Write_def Let_def indexTxByID_def indexTxsAtHeight_def byteCodec_def Put_def
        emptyDB_def)
  then have "Write byteCodec emptyDB 10 [0xA, 0xB] =
               (fst (Write byteCodec emptyDB 10 [0xA, 0xB]), None)"
    by (metis prod.collapse)
  from Write_sets_marker [OF this] ok show ?thesis
    by (simp add: PutUint64_def)
qed

subsection \<open>The marker at construction\<close>

text \<open>
  C5. When the marker holds an 8-byte value, \<^verbatim>\<open>initialize\<close> returns nil at once
  and the database it leaves is the database it was given: nothing is written
  to the by-ID space, the by-height space or the marker.
\<close>

theorem initialize_done_is_noop:
  assumes "Get s RootDB maxIndexedHeightKey = Inr v" and "length v = 8"
  shows "initialize c s lastAcceptedHeight = (s, None)"
  using assms by (simp add: initialize_def LongLen_def)

theorem initialize_done_is_noop_witness:
  "Get doneDB RootDB maxIndexedHeightKey = Inr (PutUint64 7) \<and> length (PutUint64 7) = 8 \<and>
   initialize byteCodec doneDB 9 = (doneDB, None)"
proof -
  have g: "Get doneDB RootDB maxIndexedHeightKey = Inr (PutUint64 7)"
    by (simp add: Get_def lookup_def doneDB_def emptyDB_def)
  have l: "length (PutUint64 7) = 8"
    by (simp add: PutUint64_def)
  from initialize_done_is_noop [OF g l, of byteCodec 9] g l show ?thesis
    by simp
qed

text \<open>
  C4. When the marker holds a value whose length is neither 8 nor 32, the
  construction fails with the invalid-marker error, and it has written
  nothing: no migration was started.
\<close>

theorem initialize_rejects_corrupt_marker:
  assumes "Get s RootDB maxIndexedHeightKey = Inr v" and "length v \<noteq> 8" and "length v \<noteq> 32"
  shows "NewAtomicTxRepository c s lastAcceptedHeight = (s, Some (InvalidMaxIndexedHeight v))"
  using assms by (simp add: NewAtomicTxRepository_def initialize_def LongLen_def HashLength_def)

theorem initialize_rejects_corrupt_marker_witness:
  "Get corruptDB RootDB maxIndexedHeightKey = Inr [1, 2, 3] \<and>
   length [1, 2, 3 :: byte] \<noteq> 8 \<and> length [1, 2, 3 :: byte] \<noteq> 32 \<and>
   NewAtomicTxRepository byteCodec corruptDB 9 =
     (corruptDB, Some (InvalidMaxIndexedHeight [1, 2, 3]))"
proof -
  have g: "Get corruptDB RootDB maxIndexedHeightKey = Inr [1, 2, 3]"
    by (simp add: Get_def lookup_def corruptDB_def emptyDB_def)
  have l1: "length [1, 2, 3 :: byte] \<noteq> 8" and l2: "length [1, 2, 3 :: byte] \<noteq> 32"
    by simp_all
  from initialize_rejects_corrupt_marker [OF g l1 l2, of byteCodec 9] g show ?thesis
    by simp
qed

subsection \<open>\<^verbatim>\<open>GetByTxID\<close>\<close>

lemma UnpackLong_newPacker:
  "8 \<le> length v \<Longrightarrow>
   UnpackLong (newPacker v) = (Uint64 v, \<lparr>Bytes = v, Offset = 8, Errored = False\<rparr>)"
  by (simp add: UnpackLong_def checkSpace_def newPacker_def LongLen_def Let_def)

lemma UnpackBytes_lengthPrefixed:
  assumes "8 \<le> length v"
  shows "fst (UnpackBytes \<lparr>Bytes = v, Offset = 8, Errored = False\<rparr>) = lengthPrefixed (drop 8 v)"
proof (cases "length v < 12")
  case True
  then show ?thesis
    using assms
    by (auto simp: UnpackBytes_def UnpackInt_def UnpackFixedBytes_def checkSpace_def IntLen_def
        Let_def lengthPrefixed_def)
next
  case False
  then have len: "12 \<le> length v" by simp
  have d: "drop 4 (drop 8 v) = drop 12 v" by simp
  show ?thesis
  proof (cases "length v - 12 < unat (Uint32 (drop 8 v))")
    case True
    then have "int (length v) - 12 < int (unat (Uint32 (drop 8 v)))"
      using len by linarith
    then show ?thesis
      using len True
      by (simp add: UnpackBytes_def UnpackInt_def UnpackFixedBytes_def checkSpace_def IntLen_def
          Let_def lengthPrefixed_def del: of_nat_unat)
  next
    case False
    then have "\<not> int (length v) - 12 < int (unat (Uint32 (drop 8 v)))"
      using len by linarith
    then show ?thesis
      using len False
      by (simp add: UnpackBytes_def UnpackInt_def UnpackFixedBytes_def checkSpace_def IntLen_def
          Let_def lengthPrefixed_def d del: of_nat_unat)
  qed
qed

text \<open>
  C8. With a read that the database answers: \<^verbatim>\<open>GetByTxID\<close> returns
  \<^verbatim>\<open>database.ErrNotFound\<close> when nothing is stored under the id; the too-short
  error, which is not \<^verbatim>\<open>ErrNotFound\<close>, when the stored value has fewer than 8
  bytes; and otherwise the transaction the codec decodes from the
  length-prefixed payload after the first 8 bytes, with those 8 bytes read as
  the big-endian height (or the codec's error when it cannot decode).
\<close>

theorem GetByTxID_cases:
  assumes "fault s (OpGet AcceptedAtomicTxDB txid) = None"
  shows "(lookup s AcceptedAtomicTxDB txid = None \<longrightarrow> GetByTxID c s txid = Inl ErrNotFound) \<and>
         (\<forall>v. lookup s AcceptedAtomicTxDB txid = Some v \<and> length v < 8 \<longrightarrow>
              GetByTxID c s txid = Inl (EntryTooShort (length v)) \<and>
              EntryTooShort (length v) \<noteq> ErrNotFound) \<and>
         (\<forall>v. lookup s AcceptedAtomicTxDB txid = Some v \<and> 8 \<le> length v \<longrightarrow>
              GetByTxID c s txid =
                (case extractAtomicTx c (lengthPrefixed (drop 8 v)) of
                   Inl n \<Rightarrow> Inl (CodecError n)
                 | Inr tx \<Rightarrow> Inr (tx, Uint64 (take 8 v))))"
proof (intro conjI allI impI)
  assume "lookup s AcceptedAtomicTxDB txid = None"
  then show "GetByTxID c s txid = Inl ErrNotFound"
    using assms by (simp add: GetByTxID_def Get_def)
next
  fix v
  assume "lookup s AcceptedAtomicTxDB txid = Some v \<and> length v < 8"
  then show "GetByTxID c s txid = Inl (EntryTooShort (length v))"
    using assms by (simp add: GetByTxID_def Get_def LongLen_def)
next
  fix v :: bytes
  show "EntryTooShort (length v) \<noteq> ErrNotFound"
    by simp
next
  fix v
  assume a: "lookup s AcceptedAtomicTxDB txid = Some v \<and> 8 \<le> length v"
  then have g: "Get s AcceptedAtomicTxDB txid = Inr v"
    using assms by (simp add: Get_def)
  have t: "Uint64 (take 8 v) = Uint64 v"
    using a by (simp add: Uint64_take)
  obtain packer2 where p:
    "UnpackBytes \<lparr>Bytes = v, Offset = 8, Errored = False\<rparr> = (lengthPrefixed (drop 8 v), packer2)"
    using UnpackBytes_lengthPrefixed [of v] a by (metis prod.collapse)
  show "GetByTxID c s txid =
          (case extractAtomicTx c (lengthPrefixed (drop 8 v)) of
             Inl n \<Rightarrow> Inl (CodecError n)
           | Inr tx \<Rightarrow> Inr (tx, Uint64 (take 8 v)))"
    using a unfolding t by (simp add: GetByTxID_def g LongLen_def UnpackLong_newPacker p)
qed

theorem GetByTxID_cases_witness:
  "fault shortEntryDB (OpGet AcceptedAtomicTxDB (replicate 32 9)) = None \<and>
   lookup shortEntryDB AcceptedAtomicTxDB (replicate 32 9) = None \<and>
   GetByTxID byteCodec shortEntryDB (replicate 32 9) = Inl ErrNotFound \<and>
   fault shortEntryDB (OpGet AcceptedAtomicTxDB (replicate 32 5)) = None \<and>
   lookup shortEntryDB AcceptedAtomicTxDB (replicate 32 5) = Some [0, 0, 7] \<and>
   length [0, 0, 7 :: byte] < 8 \<and>
   GetByTxID byteCodec shortEntryDB (replicate 32 5) = Inl (EntryTooShort 3) \<and>
   fault (fst (Write byteCodec emptyDB 10 [0xA])) (OpGet AcceptedAtomicTxDB (replicate 32 0xA)) = None \<and>
   lookup (fst (Write byteCodec emptyDB 10 [0xA])) AcceptedAtomicTxDB (replicate 32 0xA) =
     Some [0, 0, 0, 0, 0, 0, 0, 10, 0, 0, 0, 1, 0xA] \<and>
   GetByTxID byteCodec (fst (Write byteCodec emptyDB 10 [0xA])) (replicate 32 0xA) = Inr (0xA, 10)"
proof -
  have f1: "fault shortEntryDB (OpGet AcceptedAtomicTxDB (replicate 32 9)) = None"
    and f2: "fault shortEntryDB (OpGet AcceptedAtomicTxDB (replicate 32 5)) = None"
    by (simp_all add: shortEntryDB_def emptyDB_def)
  have l1: "lookup shortEntryDB AcceptedAtomicTxDB (replicate 32 9) = None"
    and l2: "lookup shortEntryDB AcceptedAtomicTxDB (replicate 32 5) = Some [0, 0, 7]"
    by (simp_all add: lookup_def shortEntryDB_def emptyDB_def)
  have w: "fst (Write byteCodec emptyDB 10 [0xA]) =
             emptyDB\<lparr>mem := [((AcceptedAtomicTxDB, replicate 32 0xA),
                                  [0, 0, 0, 0, 0, 0, 0, 10, 0, 0, 0, 1, 0xA]),
                                ((AcceptedAtomicTxByHeightDB, [0, 0, 0, 0, 0, 0, 0, 10]), [0xA]),
                                ((RootDB, maxIndexedHeightKey), [0, 0, 0, 0, 0, 0, 0, 10])]\<rparr>"
    by (simp add: Write_def Let_def indexTxByID_def indexTxsAtHeight_def byteCodec_def Put_def
        emptyDB_def heightTxPacker_Bytes length_PutUint64) (simp add: PutUint64_def PutUint32_def)
  have f3: "fault (fst (Write byteCodec emptyDB 10 [0xA])) (OpGet AcceptedAtomicTxDB (replicate 32 0xA)) = None"
    unfolding w by (simp add: emptyDB_def)
  have l3: "lookup (fst (Write byteCodec emptyDB 10 [0xA])) AcceptedAtomicTxDB (replicate 32 0xA) =
              Some [0, 0, 0, 0, 0, 0, 0, 10, 0, 0, 0, 1, 0xA]"
    unfolding w by (simp add: lookup_def emptyDB_def)
  have p: "lengthPrefixed [0, 0, 0, 1, 0xA] = [0xA]"
    by (simp add: lengthPrefixed_def Uint32_def)
  have h: "Uint64 [0, 0, 0, 0, 0, 0, 0, 10] = 10"
    by (simp add: Uint64_def)
  have e: "extractAtomicTx byteCodec [0xA] = Inr 0xA"
    by (simp add: byteCodec_def)
  from GetByTxID_cases [OF f1, of byteCodec] GetByTxID_cases [OF f2, of byteCodec]
    GetByTxID_cases [OF f3, of byteCodec] f1 f2 f3 l1 l2 l3
  show ?thesis
    by (simp add: p h e)
qed

subsection \<open>\<^verbatim>\<open>Write\<close>, then the two reads\<close>

lemma indexTxByID_None:
  "indexTxByID c s hb tx = (s', None) \<Longrightarrow>
   \<exists>b. marshalTx c tx = Inr b \<and>
       Put s AcceptedAtomicTxDB (txID c tx) (Bytes (heightTxPacker hb b)) = (s', None)"
  by (auto simp: indexTxByID_def split: sum.splits)

lemma indexTxByID_fault: "indexTxByID c s hb tx = (s', e) \<Longrightarrow> fault s' = fault s"
  by (auto simp: indexTxByID_def split: sum.splits dest: Put_fields)

lemma indexTxByID_other:
  assumes "indexTxByID c s hb tx = (s', e)" and "sp \<noteq> AcceptedAtomicTxDB \<or> k \<noteq> txID c tx"
  shows "lookup s' sp k = lookup s sp k"
proof (cases e)
  case None
  with assms(1) obtain b where "Put s AcceptedAtomicTxDB (txID c tx) (Bytes (heightTxPacker hb b)) = (s', None)"
    by (auto dest: indexTxByID_None)
  from lookup_Put [OF this] assms(2) show ?thesis by auto
next
  case (Some err)
  with assms(1) have "s' = s"
    by (auto simp: indexTxByID_def split: sum.splits dest: Put_Some)
  then show ?thesis by simp
qed

lemma indexTxsByID_fault: "indexTxsByID c s hb txs = (s', e) \<Longrightarrow> fault s' = fault s"
proof (induction txs arbitrary: s)
  case Nil
  then show ?case by simp
next
  case (Cons tx txs)
  then show ?case
    by (auto split: prod.splits option.splits dest: indexTxByID_fault)
qed

lemma indexTxsByID_other:
  "indexTxsByID c s hb txs = (s', e) \<Longrightarrow> sp \<noteq> AcceptedAtomicTxDB \<or> k \<notin> txID c ` set txs \<Longrightarrow>
   lookup s' sp k = lookup s sp k"
proof (induction txs arbitrary: s)
  case Nil
  then show ?case by simp
next
  case (Cons tx txs)
  obtain s1 e1 where step: "indexTxByID c s hb tx = (s1, e1)"
    by (cases "indexTxByID c s hb tx")
  have first: "lookup s1 sp k = lookup s sp k"
    using indexTxByID_other [OF step, of sp k] Cons.prems(2) by auto
  show ?case
  proof (cases e1)
    case None
    with step Cons.prems(1) have "indexTxsByID c s1 hb txs = (s', e)" by simp
    from Cons.IH [OF this] Cons.prems(2) first show ?thesis by auto
  next
    case (Some err)
    with step Cons.prems(1) have "s' = s1" by simp
    with first show ?thesis by simp
  qed
qed

lemma indexTxsByID_stored:
  "indexTxsByID c s hb txs = (s', None) \<Longrightarrow> inj_on (txID c) (set txs) \<Longrightarrow> tx \<in> set txs \<Longrightarrow>
   \<exists>b. marshalTx c tx = Inr b \<and>
       lookup s' AcceptedAtomicTxDB (txID c tx) = Some (Bytes (heightTxPacker hb b))"
proof (induction txs arbitrary: s)
  case Nil
  then show ?case by simp
next
  case (Cons x txs)
  from Cons.prems(1) obtain s1 where step: "indexTxByID c s hb x = (s1, None)"
    and rest: "indexTxsByID c s1 hb txs = (s', None)"
    by (auto split: prod.splits option.splits)
  have inj: "inj_on (txID c) (set txs)"
    using Cons.prems(2) by (simp add: inj_on_def)
  show ?case
  proof (cases "tx \<in> set txs")
    case True
    from Cons.IH [OF rest inj True] show ?thesis .
  next
    case False
    with Cons.prems(3) have eq: "tx = x" by simp
    from indexTxByID_None [OF step] obtain b where b: "marshalTx c x = Inr b"
      and put: "Put s AcceptedAtomicTxDB (txID c x) (Bytes (heightTxPacker hb b)) = (s1, None)"
      by blast
    have "txID c x \<notin> txID c ` set txs"
      using Cons.prems(2) False eq by (auto simp: inj_on_def)
    then have "lookup s' AcceptedAtomicTxDB (txID c x) = lookup s1 AcceptedAtomicTxDB (txID c x)"
      using indexTxsByID_other [OF rest] by blast
    also have "\<dots> = Some (Bytes (heightTxPacker hb b))"
      using lookup_Put [OF put] by simp
    finally show ?thesis using b eq by blast
  qed
qed

text \<open>
  C1. After a \<^verbatim>\<open>Write(height, txs)\<close> that returns no error, \<^verbatim>\<open>GetByHeight(height)\<close>
  returns \<open>txs\<close> itself, so a list with exactly the identifiers of \<open>txs\<close>, and
  \<^verbatim>\<open>GetByTxID\<close> of each transaction's identifier returns that transaction and
  \<open>height\<close>. The collaborators behave: the database answers its reads, the
  transactions of \<open>txs\<close> with one identifier are one transaction, and the codec
  decodes what it encoded, each encoded transaction being shorter than \<open>2 ^ 32\<close>
  bytes.
\<close>

theorem Write_round_trip:
  assumes written: "Write c s height txs = (s', None)"
    and reads: "\<forall>sp k. fault s (OpGet sp k) = None"
    and ids: "inj_on (txID c) (set txs)"
    and batch: "\<forall>b. marshalTxs c txs = Inr b \<longrightarrow> extractAtomicTxsBatch c b = Inr txs"
    and single: "\<forall>tx\<in>set txs. \<forall>b. marshalTx c tx = Inr b \<longrightarrow>
                   extractAtomicTx c b = Inr tx \<and> length b < 2 ^ 32"
  shows "GetByHeight c s' height = Inr txs \<and>
         (\<forall>tx\<in>set txs. GetByTxID c s' (txID c tx) = Inr (tx, height))"
proof -
  let ?hb = "PutUint64 height"
  from written obtain s1 s2 where
    byid: "indexTxsByID c s ?hb txs = (s1, None)" and
    byheight: "indexTxsAtHeight c s1 ?hb txs = (s2, None)" and
    marker: "Put s2 RootDB maxIndexedHeightKey ?hb = (s', None)"
    by (auto simp: Write_def Let_def split: prod.splits option.splits)
  from indexTxsAtHeight_None [OF byheight] obtain txsBytes where
    enc: "marshalTxs c txs = Inr txsBytes" and
    put: "Put s1 AcceptedAtomicTxByHeightDB ?hb txsBytes = (s2, None)"
    by blast
  have f: "fault s' = fault s"
    using Put_fields [OF marker] Put_fields [OF put] indexTxsByID_fault [OF byid] by simp
  have "lookup s' AcceptedAtomicTxByHeightDB ?hb = Some txsBytes"
    using lookup_Put [OF marker] lookup_Put [OF put] by simp
  then have "Get s' AcceptedAtomicTxByHeightDB ?hb = Inr txsBytes"
    using reads f by (simp add: Get_def)
  moreover have "extractAtomicTxsBatch c txsBytes = Inr txs"
    using batch enc by simp
  ultimately have h: "GetByHeight c s' height = Inr txs"
    by (simp add: GetByHeight_def getByHeightBytes_def)
  have t: "GetByTxID c s' (txID c tx) = Inr (tx, height)" if mem: "tx \<in> set txs" for tx
  proof -
    from indexTxsByID_stored [OF byid ids mem] obtain b where
      b: "marshalTx c tx = Inr b" and
      st: "lookup s1 AcceptedAtomicTxDB (txID c tx) = Some (Bytes (heightTxPacker ?hb b))"
      by blast
    from single mem b have dec: "extractAtomicTx c b = Inr tx" and len: "length b < 2 ^ 32"
      by auto
    let ?v = "?hb @ PutUint32 (of_nat (length b)) @ b"
    have v: "Bytes (heightTxPacker ?hb b) = ?v"
      by (simp add: heightTxPacker_Bytes length_PutUint64)
    have "lookup s' AcceptedAtomicTxDB (txID c tx) = Some ?v"
      using lookup_Put [OF marker] lookup_Put [OF put] st v by simp
    then have g: "Get s' AcceptedAtomicTxDB (txID c tx) = Inr ?v"
      using reads f by (simp add: Get_def)
    obtain p2 where u: "UnpackBytes \<lparr>Bytes = ?v, Offset = 8, Errored = False\<rparr> = (b, p2)"
      using UnpackBytes_record [of ?hb b] len by (metis length_PutUint64 prod.collapse)
    show ?thesis
      by (simp add: GetByTxID_def g LongLen_def length_PutUint64 length_PutUint32
          UnpackLong_record u dec Uint64_PutUint64)
  qed
  from h t show ?thesis by auto
qed

theorem Write_round_trip_witness:
  "snd (Write byteCodec emptyDB 10 [0xA, 0xB]) = None \<and>
   (\<forall>sp k. fault emptyDB (OpGet sp k) = None) \<and>
   inj_on (txID byteCodec) (set [0xA, 0xB]) \<and>
   GetByHeight byteCodec (fst (Write byteCodec emptyDB 10 [0xA, 0xB])) 10 = Inr [0xA, 0xB] \<and>
   GetByTxID byteCodec (fst (Write byteCodec emptyDB 10 [0xA, 0xB])) (txID byteCodec 0xA) =
     Inr (0xA, 10) \<and>
   GetByTxID byteCodec (fst (Write byteCodec emptyDB 10 [0xA, 0xB])) (txID byteCodec 0xB) =
     Inr (0xB, 10)"
proof -
  have ok: "snd (Write byteCodec emptyDB 10 [0xA, 0xB]) = None"
    by (simp add: Write_def Let_def indexTxByID_def indexTxsAtHeight_def byteCodec_def Put_def
        emptyDB_def)
  then have written: "Write byteCodec emptyDB 10 [0xA, 0xB] =
                        (fst (Write byteCodec emptyDB 10 [0xA, 0xB]), None)"
    by (metis prod.collapse)
  have reads: "\<forall>sp k. fault emptyDB (OpGet sp k) = None"
    by (simp add: emptyDB_def)
  have ids: "inj_on (txID byteCodec) (set [0xA, 0xB])"
    by (simp add: byteCodec_def)
  have batch: "\<forall>b. marshalTxs byteCodec [0xA, 0xB] = Inr b \<longrightarrow>
                 extractAtomicTxsBatch byteCodec b = Inr [0xA, 0xB]"
    by (simp add: byteCodec_def)
  have single: "\<forall>tx\<in>set [0xA, 0xB]. \<forall>b. marshalTx byteCodec tx = Inr b \<longrightarrow>
                  extractAtomicTx byteCodec b = Inr tx \<and> length b < 2 ^ 32"
    by (auto simp: byteCodec_def)
  from Write_round_trip [OF written reads ids batch single] ok reads ids show ?thesis
    by simp
qed

subsection \<open>One pass of the migration loop\<close>

lemma indexTxsAtHeight_fields:
  "indexTxsAtHeight c s hb txs = (s', e) \<Longrightarrow> fault s' = fault s \<and> base s' = base s"
  by (auto simp: indexTxsAtHeight_def split: sum.splits dest: Put_fields)

lemma addTxToHeightIndex_fields:
  "addTxToHeightIndex c s hb tx = (s', e) \<Longrightarrow> fault s' = fault s \<and> base s' = base s"
  by (auto simp: addTxToHeightIndex_def split: sum.splits if_splits dest: indexTxsAtHeight_fields)

lemma initializeStep_fault:
  assumes "initializeStep c (s, l) st = ((s', l'), e)"
  shows "fault s' = fault s"
proof -
  obtain k v ie where st: "st = (k, v, ie)" by (cases st)
  show ?thesis
    using assms unfolding st initializeStep_def Let_def
    by (auto split: option.splits if_splits sum.splits prod.splits
        dest!: addTxToHeightIndex_fields Put_fields Commit_fields)
qed

lemma initializeLoop_fault:
  "initializeLoop c (s, l) sts = ((s', l'), e) \<Longrightarrow> fault s' = fault s"
proof (induction sts arbitrary: s l)
  case Nil
  then show ?case by simp
next
  case (Cons st sts)
  obtain s1 l1 e1 where step: "initializeStep c (s, l) st = ((s1, l1), e1)"
    by (metis prod.collapse)
  have f1: "fault s1 = fault s" by (rule initializeStep_fault [OF step])
  show ?case
  proof (cases e1)
    case None
    with step Cons.prems have "initializeLoop c (s1, l1) sts = ((s', l'), e)" by simp
    from Cons.IH [OF this] f1 show ?thesis by simp
  next
    case (Some err)
    with step Cons.prems have "s' = s1" by simp
    with f1 show ?thesis by simp
  qed
qed

text \<open>What a pass of the loop body that ends without error has done.\<close>

lemma initializeStep_pass:
  assumes "initializeStep c (s, l) (k, v, ie) = ((s', l'), None)"
  shows "12 \<le> length v \<and>
         (\<exists>tx s1. extractAtomicTx c (drop 12 v) = Inr tx \<and>
            addTxToHeightIndex c s (take 8 v) tx = (s1, None) \<and>
            lastTxID l' = txID c tx \<and>
            (if 10 * 2 ^ 20 < pendingBytesApproximation l + (length v - 12)
             then pendingBytesApproximation l' = 0 \<and>
                  lookup s' RootDB maxIndexedHeightKey = Some (txID c tx) \<and>
                  mem s' = [] \<and>
                  map_of (base s') (RootDB, maxIndexedHeightKey) = Some (txID c tx)
             else pendingBytesApproximation l' = pendingBytesApproximation l + (length v - 12) \<and>
                  s' = s1))"
proof -
  from assms have none: "ie = None" and len: "12 \<le> length v"
    by (auto simp: initializeStep_def LongLen_def IntLen_def split: option.splits if_splits)
  from assms none len obtain tx where tx: "extractAtomicTx c (drop 12 v) = Inr tx"
    by (auto simp: initializeStep_def LongLen_def IntLen_def Let_def split: sum.splits)
  from assms none len tx obtain s1 where s1: "addTxToHeightIndex c s (take 8 v) tx = (s1, None)"
    by (auto simp: initializeStep_def LongLen_def IntLen_def Let_def split: prod.splits option.splits)
  have cap: "commitSizeCap = 10 * 2 ^ 20" by (simp add: commitSizeCap_def)
  let ?n = "pendingBytesApproximation l + (length v - 12)"
  show ?thesis
  proof (cases "10 * 2 ^ 20 < ?n")
    case True
    with assms none len tx s1 cap obtain s2 where
      put: "Put s1 RootDB maxIndexedHeightKey (txID c tx) = (s2, None)" and
      com: "Commit s2 = (s', None)" and
      l': "l' = l\<lparr>lastTxID := txID c tx, pendingBytesApproximation := 0, indexedTxs := Suc (indexedTxs l)\<rparr>"
      by (auto simp: initializeStep_def LongLen_def IntLen_def Let_def
          split: prod.splits option.splits if_splits)
    have m: "lookup s2 RootDB maxIndexedHeightKey = Some (txID c tx)"
      using lookup_Put [OF put] by simp
    have "lookup s' RootDB maxIndexedHeightKey = Some (txID c tx)"
      using lookup_Commit [OF com] m by simp
    moreover have "mem s' = []" and "map_of (base s') (RootDB, maxIndexedHeightKey) = Some (txID c tx)"
      using Commit_None [OF com] m by simp_all
    ultimately show ?thesis
      using True len tx s1 l' by simp
  next
    case False
    with assms none len tx s1 cap have
      "s' = s1" and
      "l' = l\<lparr>lastTxID := txID c tx, pendingBytesApproximation := ?n, indexedTxs := Suc (indexedTxs l)\<rparr>"
      by (auto simp: initializeStep_def LongLen_def IntLen_def Let_def
          split: prod.splits option.splits if_splits)
    then show ?thesis
      using False len tx s1 by simp
  qed
qed

lemma initializeStep_pass_example:
  "initializeStep byteCodec
     (emptyDB, \<lparr>lastTxID = [], pendingBytesApproximation = 10 * 2 ^ 20, indexedTxs = 0\<rparr>)
     (replicate 32 0xA, [0, 0, 0, 0, 0, 0, 0, 1, 0, 0, 0, 1, 0xA], None) =
     ((emptyDB\<lparr>base := [((RootDB, maxIndexedHeightKey), replicate 32 0xA),
                           ((AcceptedAtomicTxByHeightDB, [0, 0, 0, 0, 0, 0, 0, 1]), [0xA])]\<rparr>,
       \<lparr>lastTxID = replicate 32 0xA, pendingBytesApproximation = 0, indexedTxs = 1\<rparr>), None) \<and>
   lookup (emptyDB\<lparr>base := [((RootDB, maxIndexedHeightKey), replicate 32 0xA),
                           ((AcceptedAtomicTxByHeightDB, [0, 0, 0, 0, 0, 0, 0, 1]), [0xA])]\<rparr>)
     RootDB maxIndexedHeightKey = Some (txID byteCodec 0xA)"
proof -
  let ?s' = "emptyDB\<lparr>base := [((RootDB, maxIndexedHeightKey), replicate 32 0xA),
                           ((AcceptedAtomicTxByHeightDB, [0, 0, 0, 0, 0, 0, 0, 1]), [0xA])]\<rparr>"
  let ?l = "\<lparr>lastTxID = [], pendingBytesApproximation = 10 * 2 ^ 20, indexedTxs = 0\<rparr>"
  let ?l' = "\<lparr>lastTxID = replicate 32 0xA, pendingBytesApproximation = 0, indexedTxs = 1\<rparr>"
  let ?v = "[0, 0, 0, 0, 0, 0, 0, 1, 0, 0, 0, 1, 0xA] :: bytes"
  have run: "initializeStep byteCodec (emptyDB, ?l) (replicate 32 0xA, ?v, None) = ((?s', ?l'), None)"
    by (simp add: initializeStep_def addTxToHeightIndex_def getByHeightBytes_def Get_def lookup_def
        indexTxsAtHeight_def Put_def Commit_def byteCodec_def LongLen_def IntLen_def
        commitSizeCap_def Let_def emptyDB_def)
  have e: "extractAtomicTx byteCodec (drop 12 ?v) = Inr 0xA"
    by (simp add: byteCodec_def)
  have i: "txID byteCodec 0xA = replicate 32 0xA"
    by (simp add: byteCodec_def)
  from initializeStep_pass [OF run] e run show ?thesis
    by (simp add: i)
qed

subsection \<open>The end of the migration\<close>

lemma replicate_le_replicate: "(a :: 'a :: linorder) \<le> b \<Longrightarrow> replicate n a \<le> replicate n b"
  by (induction n) auto

lemma legacy_entries:
  "entriesFrom (legacyDB\<lparr>iterStop := st, iterErr := ie\<rparr>) AcceptedAtomicTxDB [] =
     [(replicate 32 0xA, [0, 0, 0, 0, 0, 0, 0, 1, 0, 0, 0, 1, 0xA]),
      (replicate 32 0xB, [0, 0, 0, 0, 0, 0, 0, 2, 0, 0, 0, 1, 0xB])]"
proof -
  have "replicate 32 (0xA :: byte) \<le> replicate 32 0xB"
    by (rule replicate_le_replicate) simp
  then show ?thesis
    by (simp add: entriesFrom_def legacyDB_def emptyDB_def)
qed

lemma legacy_iterator:
  "NewIteratorWithStart legacyDB AcceptedAtomicTxDB [] =
     \<lparr>steps = [(replicate 32 0xA, [0, 0, 0, 0, 0, 0, 0, 1, 0, 0, 0, 1, 0xA], None),
               (replicate 32 0xB, [0, 0, 0, 0, 0, 0, 0, 2, 0, 0, 0, 1, 0xB], None)],
      finalError = None\<rparr>"
proof -
  have "legacyDB = legacyDB\<lparr>iterStop := None, iterErr := (\<lambda>_. None)\<rparr>"
    by (simp add: legacyDB_def emptyDB_def)
  then have "entriesFrom legacyDB AcceptedAtomicTxDB [] =
     [(replicate 32 0xA, [0, 0, 0, 0, 0, 0, 0, 1, 0, 0, 0, 1, 0xA]),
      (replicate 32 0xB, [0, 0, 0, 0, 0, 0, 0, 2, 0, 0, 0, 1, 0xB])]"
    using legacy_entries [where st = None and ie = "\<lambda>_. None"] by simp
  then show ?thesis
    unfolding NewIteratorWithStart_def
    by (simp add: legacyDB_def emptyDB_def enumerate_eq_zip upt_rec)
qed

lemma legacy_loop:
  "initializeLoop byteCodec
     (legacyDB, \<lparr>lastTxID = [], pendingBytesApproximation = 0, indexedTxs = 0\<rparr>)
     [(replicate 32 0xA, [0, 0, 0, 0, 0, 0, 0, 1, 0, 0, 0, 1, 0xA], None),
      (replicate 32 0xB, [0, 0, 0, 0, 0, 0, 0, 2, 0, 0, 0, 1, 0xB], None)] =
   ((legacyDB\<lparr>mem := [((AcceptedAtomicTxByHeightDB, [0, 0, 0, 0, 0, 0, 0, 1]), [0xA]),
                         ((AcceptedAtomicTxByHeightDB, [0, 0, 0, 0, 0, 0, 0, 2]), [0xB])]\<rparr>,
     \<lparr>lastTxID = replicate 32 0xB, pendingBytesApproximation = 2, indexedTxs = 2\<rparr>), None)"
  by (simp add: initializeStep_def addTxToHeightIndex_def getByHeightBytes_def Get_def lookup_def
      indexTxsAtHeight_def Put_def byteCodec_def LongLen_def IntLen_def commitSizeCap_def Let_def
      legacyDB_def emptyDB_def)

text \<open>
  C7. When the marker is absent, or holds 32 bytes, and the loop over the
  entries of the by-ID iterator ends without error, \<^verbatim>\<open>initialize\<close> writes the
  big-endian \<open>lastAcceptedHeight\<close> under the marker key, commits and returns nil,
  provided the database accepts that write and the commit: afterwards nothing
  is pending and the committed contents hold the marker.
\<close>

theorem initialize_completion_marker:
  assumes start: "Get s RootDB maxIndexedHeightKey = Inl ErrNotFound \<and> start = [] \<or>
                  Get s RootDB maxIndexedHeightKey = Inr start \<and> length start = 32"
    and scan: "initializeLoop c
                 (s, \<lparr>lastTxID = start, pendingBytesApproximation = 0, indexedTxs = 0\<rparr>)
                 (steps (NewIteratorWithStart s AcceptedAtomicTxDB start)) = ((s1, l1), None)"
    and put: "fault s (OpPut RootDB maxIndexedHeightKey) = None"
    and commit: "fault s OpCommit = None"
  shows "\<exists>s'. initialize c s lastAcceptedHeight = (s', None) \<and>
              lookup s' RootDB maxIndexedHeightKey = Some (PutUint64 lastAcceptedHeight) \<and>
              mem s' = [] \<and>
              map_of (base s') (RootDB, maxIndexedHeightKey) = Some (PutUint64 lastAcceptedHeight)"
proof -
  let ?hb = "PutUint64 lastAcceptedHeight"
  have f: "fault s1 = fault s"
    by (rule initializeLoop_fault [OF scan])
  obtain s2 where p: "Put s1 RootDB maxIndexedHeightKey ?hb = (s2, None)"
    using Put_ok [of s1 RootDB maxIndexedHeightKey ?hb] put f by auto
  have f2: "fault s2 = fault s"
    using Put_fields [OF p] f by simp
  obtain s' where c: "Commit s2 = (s', None)"
    using commit f2 by (simp add: Commit_def)
  have m: "lookup s2 RootDB maxIndexedHeightKey = Some ?hb"
    using lookup_Put [OF p] by simp
  have from_start: "initializeFrom c s start lastAcceptedHeight = (s', None)"
    using scan p c by (simp add: initializeFrom_def Let_def)
  have "initialize c s lastAcceptedHeight = (s', None)"
    using start from_start by (auto simp: initialize_def LongLen_def HashLength_def)
  moreover have "lookup s' RootDB maxIndexedHeightKey = Some ?hb"
    using lookup_Commit [OF c] m by simp
  moreover have "mem s' = []" and "map_of (base s') (RootDB, maxIndexedHeightKey) = Some ?hb"
    using Commit_None [OF c] m by simp_all
  ultimately show ?thesis by blast
qed

theorem initialize_completion_marker_witness:
  "Get legacyDB RootDB maxIndexedHeightKey = Inl ErrNotFound \<and>
   fault legacyDB (OpPut RootDB maxIndexedHeightKey) = None \<and>
   fault legacyDB OpCommit = None \<and>
   (\<exists>s'. initialize byteCodec legacyDB 2 = (s', None) \<and>
         lookup s' RootDB maxIndexedHeightKey = Some (PutUint64 2) \<and>
         mem s' = [] \<and>
         map_of (base s') (RootDB, maxIndexedHeightKey) = Some (PutUint64 2))"
proof -
  have g: "Get legacyDB RootDB maxIndexedHeightKey = Inl ErrNotFound"
    by (simp add: Get_def lookup_def legacyDB_def emptyDB_def)
  have p: "fault legacyDB (OpPut RootDB maxIndexedHeightKey) = None"
    and c: "fault legacyDB OpCommit = None"
    by (simp_all add: legacyDB_def emptyDB_def)
  have start: "Get legacyDB RootDB maxIndexedHeightKey = Inl ErrNotFound \<and> ([] :: bytes) = [] \<or>
               Get legacyDB RootDB maxIndexedHeightKey = Inr [] \<and> length ([] :: bytes) = 32"
    using g by simp
  have scan: "initializeLoop byteCodec
      (legacyDB, \<lparr>lastTxID = [], pendingBytesApproximation = 0, indexedTxs = 0\<rparr>)
      (steps (NewIteratorWithStart legacyDB AcceptedAtomicTxDB [])) =
      ((legacyDB\<lparr>mem := [((AcceptedAtomicTxByHeightDB, [0, 0, 0, 0, 0, 0, 0, 1]), [0xA]),
                         ((AcceptedAtomicTxByHeightDB, [0, 0, 0, 0, 0, 0, 0, 2]), [0xB])]\<rparr>,
     \<lparr>lastTxID = replicate 32 0xB, pendingBytesApproximation = 2, indexedTxs = 2\<rparr>), None)"
    unfolding legacy_iterator using legacy_loop by simp
  from initialize_completion_marker [OF start scan p c, of 2] g p c show ?thesis
    by simp
qed

subsection \<open>Checkpoints during the scan\<close>





subsection \<open>A transaction already in the batch of its height\<close>

lemma indexedDB_batch: "getByHeightBytes byteCodec indexedDB (PutUint64 1) = Inr [0xA]"
  by (simp add: getByHeightBytes_def Get_def lookup_def indexedDB_def emptyDB_def byteCodec_def)

lemma indexedDB_add:
  "addTxToHeightIndex byteCodec indexedDB (PutUint64 1) 0xA =
     (indexedDB\<lparr>mem := [((AcceptedAtomicTxByHeightDB, PutUint64 1), [0xA, 0xA])]\<rparr>, None)"
  unfolding addTxToHeightIndex_def indexedDB_batch
  by (simp add: indexTxsAtHeight_def Put_def byteCodec_def indexedDB_def emptyDB_def)

lemma resumed_marker: "Get resumedDB RootDB maxIndexedHeightKey = Inr (replicate 32 0xA)"
  by (simp add: Get_def lookup_def resumedDB_def emptyDB_def)

lemma resumed_iterator:
  "NewIteratorWithStart resumedDB AcceptedAtomicTxDB (replicate 32 0xA) =
     \<lparr>steps = [(replicate 32 0xA, [0, 0, 0, 0, 0, 0, 0, 1, 0, 0, 0, 1, 0xA], None)],
      finalError = None\<rparr>"
  by (simp add: NewIteratorWithStart_def entriesFrom_def resumedDB_def emptyDB_def enumerate_eq_zip)

lemma resumed_loop:
  "initializeLoop byteCodec
     (resumedDB, \<lparr>lastTxID = replicate 32 0xA, pendingBytesApproximation = 0, indexedTxs = 0\<rparr>)
     [(replicate 32 0xA, [0, 0, 0, 0, 0, 0, 0, 1, 0, 0, 0, 1, 0xA], None)] =
   ((resumedDB\<lparr>mem := [((AcceptedAtomicTxByHeightDB, [0, 0, 0, 0, 0, 0, 0, 1]), [0xA, 0xA])]\<rparr>,
     \<lparr>lastTxID = replicate 32 0xA, pendingBytesApproximation = 1, indexedTxs = 1\<rparr>), None)"
  by (simp add: initializeStep_def addTxToHeightIndex_def getByHeightBytes_def Get_def lookup_def
      indexTxsAtHeight_def Put_def byteCodec_def LongLen_def IntLen_def commitSizeCap_def Let_def
      resumedDB_def emptyDB_def)

lemma resumed_initialize:
  "initialize byteCodec resumedDB 1 =
     (resumedDB\<lparr>mem := [],
                base := [((AcceptedAtomicTxDB, replicate 32 0xA), [0, 0, 0, 0, 0, 0, 0, 1, 0, 0, 0, 1, 0xA]),
                         ((AcceptedAtomicTxByHeightDB, [0, 0, 0, 0, 0, 0, 0, 1]), [0xA, 0xA]),
                         ((RootDB, maxIndexedHeightKey), PutUint64 1)]\<rparr>, None)"
  by (simp add: initialize_def resumed_marker initializeFrom_def resumed_iterator resumed_loop
        Let_def LongLen_def HashLength_def del: initializeLoop.simps)
     (simp add: Put_def Commit_def resumedDB_def emptyDB_def)

text \<open>
  C2. The claim is that a transaction whose identifier is already in the batch
  of its height is skipped. The code appends it: at height 1 the batch holds
  transaction \<open>0xA\<close>; \<^verbatim>\<open>addTxToHeightIndex\<close> of the same transaction returns nil and
  leaves the batch \<open>[0xA, 0xA]\<close>, whose identifiers are not distinct. A migration
  that resumes from its checkpoint meets this case: the iterator starts at the
  transaction of the marker, which the checkpoint has already indexed, and
  \<^verbatim>\<open>initialize\<close> returns nil with that transaction twice at its height.
\<close>

theorem duplicate_is_appended:
  "getByHeightBytes byteCodec indexedDB (PutUint64 1) = Inr [0xA] \<and>
   snd (addTxToHeightIndex byteCodec indexedDB (PutUint64 1) 0xA) = None \<and>
   getByHeightBytes byteCodec (fst (addTxToHeightIndex byteCodec indexedDB (PutUint64 1) 0xA))
     (PutUint64 1) = Inr [0xA, 0xA] \<and>
   \<not> distinct (map (txID byteCodec) [0xA, 0xA]) \<and>
   GetByHeight byteCodec resumedDB 1 = Inr [0xA] \<and>
   snd (initialize byteCodec resumedDB 1) = None \<and>
   GetByHeight byteCodec (fst (initialize byteCodec resumedDB 1)) 1 = Inr [0xA, 0xA]"
proof -
  have after: "getByHeightBytes byteCodec
          (indexedDB\<lparr>mem := [((AcceptedAtomicTxByHeightDB, PutUint64 1), [0xA, 0xA])]\<rparr>)
          (PutUint64 1) = Inr [0xA, 0xA]"
    by (simp add: getByHeightBytes_def Get_def lookup_def indexedDB_def emptyDB_def byteCodec_def)
  have before: "GetByHeight byteCodec resumedDB 1 = Inr [0xA]"
    by (simp add: GetByHeight_def getByHeightBytes_def Get_def lookup_def resumedDB_def emptyDB_def
        byteCodec_def PutUint64_def)
  have resumed: "GetByHeight byteCodec (fst (initialize byteCodec resumedDB 1)) 1 = Inr [0xA, 0xA]"
    unfolding resumed_initialize
    by (simp add: GetByHeight_def getByHeightBytes_def Get_def lookup_def resumedDB_def emptyDB_def
        byteCodec_def PutUint64_def)
  show ?thesis
    using after before resumed by (simp add: indexedDB_batch indexedDB_add resumed_initialize)
qed

subsection \<open>An iterator that ends with an error\<close>

lemma brokenScan_iterator:
  "NewIteratorWithStart brokenScanDB AcceptedAtomicTxDB [] =
     \<lparr>steps = [(replicate 32 0xA, [0, 0, 0, 0, 0, 0, 0, 1, 0, 0, 0, 1, 0xA], None)],
      finalError = Some (StoreError 5)\<rparr>"
  unfolding NewIteratorWithStart_def brokenScanDB_def legacy_entries
  by (simp add: legacyDB_def emptyDB_def enumerate_eq_zip)


lemma brokenScan_marker_absent: "Get brokenScanDB RootDB maxIndexedHeightKey = Inl ErrNotFound"
  by (simp add: Get_def lookup_def brokenScanDB_def legacyDB_def emptyDB_def)

lemma brokenScan_loop:
  "initializeLoop byteCodec
     (brokenScanDB, \<lparr>lastTxID = [], pendingBytesApproximation = 0, indexedTxs = 0\<rparr>)
     [(replicate 32 0xA, [0, 0, 0, 0, 0, 0, 0, 1, 0, 0, 0, 1, 0xA], None)] =
   ((brokenScanDB\<lparr>mem := [((AcceptedAtomicTxByHeightDB, [0, 0, 0, 0, 0, 0, 0, 1]), [0xA])]\<rparr>,
     \<lparr>lastTxID = replicate 32 0xA, pendingBytesApproximation = 1, indexedTxs = 1\<rparr>), None)"
  by (simp add: initializeStep_def addTxToHeightIndex_def getByHeightBytes_def Get_def lookup_def
      indexTxsAtHeight_def Put_def byteCodec_def LongLen_def IntLen_def commitSizeCap_def Let_def
      brokenScanDB_def legacyDB_def emptyDB_def)

lemma brokenScan_initialize:
  "initialize byteCodec brokenScanDB 2 =
     (brokenScanDB\<lparr>mem := [],
                   base := base brokenScanDB @
                     [((RootDB, maxIndexedHeightKey), PutUint64 2),
                      ((AcceptedAtomicTxByHeightDB, [0, 0, 0, 0, 0, 0, 0, 1]), [0xA])]\<rparr>, None)"
  unfolding initialize_def brokenScan_marker_absent initializeFrom_def brokenScan_iterator
  by (simp add: brokenScan_loop Let_def del: initializeLoop.simps)
     (simp add: Put_def Commit_def brokenScanDB_def legacyDB_def emptyDB_def)

text \<open>
  C3. The claim is that an error of the iterator makes \<^verbatim>\<open>initialize\<close> return it
  and leave the marker unwritten. On the database whose scan breaks after the
  first entry, the iterator ends with the store's error, and \<^verbatim>\<open>initialize\<close>
  returns nil with the marker set to the height 2: the transaction \<open>0xB\<close>,
  found by its id at height 2, is missing from the height index that the
  marker declares complete.
\<close>

theorem iterator_error_ignored:
  "finalError (NewIteratorWithStart brokenScanDB AcceptedAtomicTxDB []) = Some (StoreError 5) \<and>
   snd (initialize byteCodec brokenScanDB 2) = None \<and>
   lookup (fst (initialize byteCodec brokenScanDB 2)) RootDB maxIndexedHeightKey = Some (PutUint64 2) \<and>
   GetByTxID byteCodec brokenScanDB (replicate 32 0xB) = Inr (0xB, 2) \<and>
   GetByHeight byteCodec (fst (initialize byteCodec brokenScanDB 2)) 2 = Inl ErrNotFound"
proof -
  have h: "Uint64 [0, 0, 0, 0, 0, 0, 0, 2, 0, 0, 0, 1, 0xB] = 2"
    by (simp add: Uint64_def)
  have u: "UnpackBytes \<lparr>Bytes = [0, 0, 0, 0, 0, 0, 0, 2, 0, 0, 0, 1, 0xB], Offset = 8, Errored = False\<rparr> =
             ([0xB], \<lparr>Bytes = [0, 0, 0, 0, 0, 0, 0, 2, 0, 0, 0, 1, 0xB], Offset = 13, Errored = False\<rparr>)"
    by (simp add: UnpackBytes_def UnpackInt_def UnpackFixedBytes_def checkSpace_def IntLen_def
        Let_def Uint32_def)
  have byid: "GetByTxID byteCodec brokenScanDB (replicate 32 0xB) = Inr (0xB, 2)"
    by (simp add: GetByTxID_def Get_def lookup_def brokenScanDB_def legacyDB_def emptyDB_def
        LongLen_def UnpackLong_newPacker u h byteCodec_def)
  have byheight:
    "GetByHeight byteCodec (fst (initialize byteCodec brokenScanDB 2)) 2 = Inl ErrNotFound"
    unfolding brokenScan_initialize
    by (simp add: GetByHeight_def getByHeightBytes_def Get_def lookup_def brokenScanDB_def
        legacyDB_def emptyDB_def PutUint64_def)
  have marker:
    "lookup (fst (initialize byteCodec brokenScanDB 2)) RootDB maxIndexedHeightKey =
       Some (PutUint64 2)"
    unfolding brokenScan_initialize
    by (simp add: lookup_def brokenScanDB_def legacyDB_def emptyDB_def)
  show ?thesis
    using byid byheight marker by (simp add: brokenScan_initialize brokenScan_iterator)
qed

end
